theory Spec2Isabelle
  imports Main "HOL-Library.Word"
begin

unbundle bit_operations_syntax

section \<open>Data model\<close>

text \<open>
  Bytes read from the savegame are lists of 8-bit words. Python integers are unbounded;
  those that are sizes, counts or indices delivered by the readers are naturals, and
  \<open>int\<close> is used wherever the source subtracts.
\<close>

type_synonym byte = "8 word"
type_synonym bytes = "byte list"

text \<open>
  Every exception the decoder can meet is a value. \<open>ValidationException\<close> is the
  class of \<^verbatim>\<open>exceptions.py\<close>; the others are Python's own (\<open>struct.error\<close>,
  \<open>ValueError\<close> of an enum constructor, \<open>KeyError\<close> of a dictionary lookup,
  \<open>UnicodeDecodeError\<close> of \<open>bytes.decode\<close>), and \<open>OtherError\<close> stands for anything
  else a collaborator raises.
\<close>

datatype error =
    ValidationException string
  | StructError
  | ValueError
  | KeyError string
  | UnicodeDecodeError
  | OtherError string

text \<open>
  The members of \<^verbatim>\<open>enums.FieldType\<close> the decoder names are \<open>STRING\<close> and
  \<open>STRUCT\<close>; every other member is a scalar kind, kept by its numeric value.
\<close>

datatype FieldType = STRING | STRUCT | SCALAR nat

text \<open>A field of a table: \<open>(field_type, is_list, name)\<close>, the tuple the source appends.\<close>

type_synonym field = "FieldType \<times> bool \<times> string"

text \<open>
  Decoded values: integers, strings, lists, and dictionaries (records). A Python
  \<open>dict\<close> keeps its keys in insertion order, so it is an association list with
  distinct keys.
\<close>

datatype pyval =
    VInt int
  | VStr string
  | VList "pyval list"
  | VDict "(string \<times> pyval) list"

type_synonym ('k, 'v) dict = "('k \<times> 'v) list"

definition dict_get :: "('k, 'v) dict \<Rightarrow> 'k \<Rightarrow> 'v option" where
  "dict_get d k = map_of d k"

text \<open>\<open>d[k] = v\<close>: replaces the value of a present key in place, appends a new key.\<close>

fun dict_set :: "('k, 'v) dict \<Rightarrow> 'k \<Rightarrow> 'v \<Rightarrow> ('k, 'v) dict" where
  "dict_set [] k v = [(k, v)]"
| "dict_set ((k', v') # d) k v =
     (if k' = k then (k, v) # d else (k', v') # dict_set d k v)"

type_synonym tables = "(string, field list) dict"

subsection \<open>The collaborators that are not part of the decoder\<close>

text \<open>
  \<^verbatim>\<open>savegame.py\<close> imports its primitive readers, the codec registry and the field
  kinds from sibling modules. They are parameters of the model, collected in one record:
  \<^item> \<open>file_read\<close>, \<open>file_uint16\<close>: \<open>BinaryReaderFile.read\<close> and \<open>.uint16\<close> on the
    raw file, whose state is \<open>'f\<close>;
  \<^item> \<open>UNCOMPRESS\<close>: the codec registry; \<open>UNCOMPRESS.get(magic)\<close> is \<open>None\<close> or a
    decompressor, whose \<open>open\<close> turns the file into the block reader's state \<open>'r\<close>;
  \<^item> \<open>rd_read\<close>, \<open>rd_uint8\<close>, \<open>rd_uint24\<close>, \<open>rd_gamma\<close>: the methods \<open>read\<close>,
    \<open>uint8\<close>, \<open>uint24\<close> and \<open>gamma\<close> of \<open>BinaryReaderFileBlockMode\<close>; \<open>gamma\<close>
    returns the pair (value, encoded length);
  \<^item> \<open>FieldType_of\<close>: the enum constructor \<open>FieldType(n)\<close>, \<open>None\<close> where it raises
    \<open>ValueError\<close>; \<open>FIELD_TYPE_HAS_LENGTH_FIELD\<close>: the list bit of a type byte;
  \<^item> \<open>read_gamma\<close>, \<open>read_uint16\<close>, \<open>read_uint32\<close>, \<open>read_string\<close>, \<open>READERS\<close>:
    the methods and the handler table of \<open>PassthroughReader\<close>, each from a byte span to
    a value and the rest of the span;
  \<^item> \<open>decode\<close>, \<open>repr\<close>: Python's \<open>bytes.decode()\<close> and the text of a bytes
    object in a message.
\<close>

record ('f, 'r) env =
  file_read :: "nat \<Rightarrow> 'f \<Rightarrow> error + (bytes \<times> 'f)"
  file_uint16 :: "'f \<Rightarrow> error + (nat \<times> 'f)"
  UNCOMPRESS :: "bytes \<Rightarrow> ('f \<Rightarrow> error + 'r) option"
  rd_read :: "int \<Rightarrow> 'r \<Rightarrow> error + (bytes \<times> 'r)"
  rd_uint8 :: "'r \<Rightarrow> error + (nat \<times> 'r)"
  rd_uint24 :: "'r \<Rightarrow> error + (nat \<times> 'r)"
  rd_gamma :: "'r \<Rightarrow> error + ((nat \<times> nat) \<times> 'r)"
  FieldType_of :: "nat \<Rightarrow> FieldType option"
  FIELD_TYPE_HAS_LENGTH_FIELD :: int
  read_gamma :: "bytes \<Rightarrow> error + (nat \<times> bytes)"
  read_uint16 :: "bytes \<Rightarrow> error + (nat \<times> bytes)"
  read_uint32 :: "bytes \<Rightarrow> error + (nat \<times> bytes)"
  read_string :: "bytes \<Rightarrow> error + (string \<times> bytes)"
  READERS :: "FieldType \<Rightarrow> (bytes \<Rightarrow> error + (pyval \<times> bytes)) option"
  decode :: "bytes \<Rightarrow> error + string"
  repr :: "bytes \<Rightarrow> string"

section \<open>Schema parser\<close>

text \<open>\<open>struct.unpack(">b", bs)[0]\<close>: one signed byte, \<open>struct.error\<close> on any other length.\<close>

definition unpack_b :: "bytes \<Rightarrow> error + int" where
  "unpack_b bs = (case bs of [b] \<Rightarrow> Inr (sint b) | _ \<Rightarrow> Inl StructError)"

text \<open>
  The \<open>while True\<close> loop of \<open>_read_table\<close>, with its two accumulators. Whether it ends
  depends on the reader, so not returning is the value \<open>None\<close>.
\<close>

partial_function (option) u_read_table_loop ::
  "('f, 'r) env \<Rightarrow> field list \<Rightarrow> nat \<Rightarrow> 'r \<Rightarrow> (error + ((field list \<times> nat) \<times> 'r)) option"
where
  "u_read_table_loop env flds sz reader =
     (case rd_read env 1 reader of
        Inl e \<Rightarrow> Some (Inl e)
      | Inr (bs, reader1) \<Rightarrow>
     (case unpack_b bs of
        Inl e \<Rightarrow> Some (Inl e)
      | Inr type \<Rightarrow>
          if type = 0 then Some (Inr ((flds, sz + 1), reader1))
          else
     (case rd_gamma env reader1 of
        Inl e \<Rightarrow> Some (Inl e)
      | Inr ((key_length, index_size), reader2) \<Rightarrow>
     (case rd_read env (int key_length) reader2 of
        Inl e \<Rightarrow> Some (Inl e)
      | Inr (key, reader3) \<Rightarrow>
     (case FieldType_of env (nat (type AND 0xf)) of
        None \<Rightarrow> Some (Inl ValueError)
      | Some field_type \<Rightarrow>
     (case decode env key of
        Inl e \<Rightarrow> Some (Inl e)
      | Inr name \<Rightarrow>
          u_read_table_loop env
            (flds @ [(field_type, type AND FIELD_TYPE_HAS_LENGTH_FIELD env \<noteq> 0, name)])
            (sz + 1 + key_length + index_size) reader3))))))"

declare u_read_table_loop.simps [code]

definition u_read_table ::
  "('f, 'r) env \<Rightarrow> 'r \<Rightarrow> (error + ((field list \<times> nat) \<times> 'r)) option" where
  "u_read_table env reader = u_read_table_loop env [] 0 reader"

text \<open>
  \<open>_read_substruct\<close>: the \<open>for\<close> loop over the fields of \<open>tables[key]\<close>, with the
  running \<open>size\<close>, the reader and the dictionary of tables, which the source mutates in
  place. A \<open>STRUCT\<close> field reads the nested table that follows in the stream, stores it
  under \<open>key.name\<close> and descends into it (the recursive call of \<open>_read_substruct\<close>, whose
  own first step is the lookup of \<open>tables[table_key]\<close>) before the next field.
\<close>

partial_function (option) u_read_substruct_loop ::
  "('f, 'r) env \<Rightarrow> field list \<Rightarrow> nat \<Rightarrow> 'r \<Rightarrow> tables \<Rightarrow> string
     \<Rightarrow> (error + (nat \<times> 'r \<times> tables)) option"
where
  "u_read_substruct_loop env flds sz reader tables key =
     (case flds of
        [] \<Rightarrow> Some (Inr (sz, reader, tables))
      | field # rest \<Rightarrow>
          if fst field = STRUCT then
            Option.bind (u_read_table env reader) (\<lambda>res.
              case res of
                Inl e \<Rightarrow> Some (Inl e)
              | Inr ((sub_fields, sub_size), reader1) \<Rightarrow>
                  let table_key = key @ ''.'' @ snd (snd field);
                      tables1 = dict_set tables table_key sub_fields
                  in (case dict_get tables1 table_key of
                        None \<Rightarrow> Some (Inl (KeyError table_key))
                      | Some sub_flds \<Rightarrow>
                          Option.bind
                            (u_read_substruct_loop env sub_flds 0 reader1 tables1 table_key)
                            (\<lambda>res2.
                               case res2 of
                                 Inl e \<Rightarrow> Some (Inl e)
                               | Inr (sub_sub_size, reader2, tables2) \<Rightarrow>
                                   u_read_substruct_loop env rest
                                     (sz + sub_size + sub_sub_size) reader2 tables2 key)))
          else u_read_substruct_loop env rest sz reader tables key)"

declare u_read_substruct_loop.simps [code]

definition u_read_substruct ::
  "('f, 'r) env \<Rightarrow> 'r \<Rightarrow> tables \<Rightarrow> string \<Rightarrow> (error + (nat \<times> 'r \<times> tables)) option"
where
  "u_read_substruct env reader tables key =
     (case dict_get tables key of
        None \<Rightarrow> Some (Inl (KeyError key))
      | Some flds \<Rightarrow> u_read_substruct_loop env flds 0 reader tables key)"

text \<open>\<open>read_all_tables\<close>: the root table, then its nested tables; the tag is not used.\<close>

definition read_all_tables ::
  "('f, 'r) env \<Rightarrow> string \<Rightarrow> 'r \<Rightarrow> (error + ((tables \<times> nat) \<times> 'r)) option"
where
  "read_all_tables env tag reader =
     Option.bind (u_read_table env reader) (\<lambda>res.
       case res of
         Inl e \<Rightarrow> Some (Inl e)
       | Inr ((root_fields, sz), reader1) \<Rightarrow>
           Option.bind
             (u_read_substruct env reader1 (dict_set [] ''root'' root_fields) ''root'')
             (\<lambda>res2.
                case res2 of
                  Inl e \<Rightarrow> Some (Inl e)
                | Inr (sub_size, reader2, tables) \<Rightarrow> Some (Inr ((tables, sz + sub_size), reader2))))"

section \<open>Record decoder\<close>

text \<open>
  \<open>_read_item\<close> and \<open>read_field\<close> call each other: a \<open>STRUCT\<close> field is decoded under
  the longer key \<open>key.field_name\<close>. A dictionary of tables has finitely many keys, so the
  descent ends: with a key longer than every key of \<open>tables\<close> the lookup raises
  \<open>KeyError\<close>. \<open>max_key_len\<close> and \<open>decoder_rank\<close> measure how far a key is from that.
\<close>

definition max_key_len :: "tables \<Rightarrow> nat" where
  "max_key_len tables = foldr (\<lambda>kv m. max (length (fst kv)) m) tables 0"

lemma dict_get_max_key_len:
  "dict_get tables key = Some v \<Longrightarrow> length key \<le> max_key_len tables"
  by (induction tables) (auto simp: dict_get_def max_key_len_def split: if_splits)

definition decoder_rank :: "tables \<Rightarrow> string \<Rightarrow> nat" where
  "decoder_rank tables key = Suc (max_key_len tables) - length key"

text \<open>
  The two \<open>for\<close> loops are \<open>u_read_item_loop\<close> (over the fields of the table, with the
  result dictionary and the remaining bytes) and \<open>read_field_loop\<close> (over
  \<open>range(length)\<close>, with the list built so far). \<open>self.READERS[field]\<close> is a dictionary
  lookup, so a kind without a handler raises \<open>KeyError\<close>.
\<close>

function
  u_read_item ::
    "('f, 'r) env \<Rightarrow> bytes \<Rightarrow> tables \<Rightarrow> string \<Rightarrow> error + ((string, pyval) dict \<times> bytes)"
  and u_read_item_loop ::
    "('f, 'r) env \<Rightarrow> field list \<Rightarrow> (string, pyval) dict \<Rightarrow> bytes \<Rightarrow> tables \<Rightarrow> string
       \<Rightarrow> error + ((string, pyval) dict \<times> bytes)"
  and read_field ::
    "('f, 'r) env \<Rightarrow> bytes \<Rightarrow> tables \<Rightarrow> FieldType \<Rightarrow> bool \<Rightarrow> string \<Rightarrow> string
       \<Rightarrow> error + (pyval \<times> bytes)"
  and read_field_loop ::
    "('f, 'r) env \<Rightarrow> nat \<Rightarrow> pyval list \<Rightarrow> bytes \<Rightarrow> tables \<Rightarrow> FieldType \<Rightarrow> string \<Rightarrow> string
       \<Rightarrow> error + (pyval list \<times> bytes)"
where
  "u_read_item env data tables key =
     (case dict_get tables key of
        None \<Rightarrow> Inl (KeyError key)
      | Some flds \<Rightarrow> u_read_item_loop env flds [] data tables key)"
| "u_read_item_loop env [] result data tables key = Inr (result, data)"
| "u_read_item_loop env (field # rest) result data tables key =
     (case read_field env data tables (fst field) (fst (snd field)) (snd (snd field)) key of
        Inl e \<Rightarrow> Inl e
      | Inr (res, data1) \<Rightarrow>
          u_read_item_loop env rest (dict_set result (snd (snd field)) res) data1 tables key)"
| "read_field env data tables field is_list field_name key =
     (if is_list \<and> field \<noteq> STRING then
        (case read_gamma env data of
           Inl e \<Rightarrow> Inl e
         | Inr (len, data1) \<Rightarrow>
             (case read_field_loop env len [] data1 tables field field_name key of
                Inl e \<Rightarrow> Inl e
              | Inr (res, data2) \<Rightarrow> Inr (VList res, data2)))
      else if field = STRUCT then
        (case u_read_item env data tables (key @ ''.'' @ field_name) of
           Inl e \<Rightarrow> Inl e
         | Inr (res, data1) \<Rightarrow> Inr (VDict res, data1))
      else
        (case READERS env field of
           None \<Rightarrow> Inl (KeyError ''READERS'')
         | Some reader \<Rightarrow> reader data))"
| "read_field_loop env 0 res data tables field field_name key = Inr (res, data)"
| "read_field_loop env (Suc n) res data tables field field_name key =
     (case read_field env data tables field False field_name key of
        Inl e \<Rightarrow> Inl e
      | Inr (item, data1) \<Rightarrow>
          read_field_loop env n (res @ [item]) data1 tables field field_name key)"
  by pat_completeness auto
termination
proof (relation "measures
    [case_sum
       (case_sum
          (\<lambda>(env, data, tables, key).
             if dict_get tables key = None then 0 else 2 * decoder_rank tables key + 2)
          (\<lambda>(env, flds, result, data, tables, key). 2 * decoder_rank tables key + 1))
       (case_sum
          (\<lambda>(env, data, tables, field, is_list, field_name, key). 2 * decoder_rank tables key + 1)
          (\<lambda>(env, n, res, data, tables, field, field_name, key). 2 * decoder_rank tables key + 1)),
     case_sum
       (case_sum (\<lambda>_. 0) (\<lambda>_. 3))
       (case_sum
          (\<lambda>(env, data, tables, field, is_list, field_name, key). if is_list then 2 else 0)
          (\<lambda>_. 1)),
     case_sum
       (case_sum (\<lambda>_. 0) (\<lambda>(env, flds, result, data, tables, key). length flds))
       (case_sum (\<lambda>_. 0) (\<lambda>(env, n, res, data, tables, field, field_name, key). n))]",
    goal_cases)
  case 1
  show ?case by simp
next
  case 2
  then show ?case by simp
next
  case 3
  then show ?case by simp
next
  case 4
  then show ?case by simp
next
  case 5
  then show ?case by simp
next
  case (6 env data tables field is_list field_name key)
  show ?case
  proof (cases "dict_get tables (key @ ''.'' @ field_name)")
    case None
    then show ?thesis by simp
  next
    case (Some flds)
    from dict_get_max_key_len [OF Some]
    have "length key + length field_name + 1 \<le> max_key_len tables"
      by simp
    then have "2 * decoder_rank tables (key @ ''.'' @ field_name) + 2
                 < 2 * decoder_rank tables key + 1"
      by (simp add: decoder_rank_def)
    with Some show ?thesis by simp
  qed
next
  case 7
  then show ?case by simp
next
  case 8
  then show ?case by simp
qed

section \<open>The decoder's state\<close>

text \<open>
  \<open>self.tables\<close> maps a chunk tag either to the tables parsed from the chunk's header
  or to a one-entry placeholder dictionary: \<open>Placeholder ''unsupported''\<close> is
  \<open>{"unsupported": ""}\<close> and \<open>Placeholder ''slxi''\<close> is \<open>{"slxi": ""}\<close>.
  \<open>self.items\<close> is a \<open>defaultdict(dict)\<close>: tag to (string index to item).
\<close>

datatype registry = Schemas tables | Placeholder string

record savegame =
  savegame_version :: "nat option"
  self_tables :: "string \<Rightarrow> registry option"
  self_items :: "string \<Rightarrow> (string \<Rightarrow> pyval option) option"

definition init_savegame :: savegame where
  "init_savegame = \<lparr>savegame_version = None, self_tables = Map.empty, self_items = Map.empty\<rparr>"

text \<open>\<open>self.items[tag][idx] = v\<close>; a missing tag starts from the empty dictionary.\<close>

definition items_set ::
  "(string \<Rightarrow> (string \<Rightarrow> pyval option) option) \<Rightarrow> string \<Rightarrow> string \<Rightarrow> pyval
     \<Rightarrow> (string \<Rightarrow> (string \<Rightarrow> pyval option) option)"
where
  "items_set its tag idx v =
     its(tag \<mapsto> (case its tag of None \<Rightarrow> Map.empty | Some d \<Rightarrow> d)(idx \<mapsto> v))"

text \<open>Python's \<open>str\<close> of an integer: decimal digits, with a minus sign when negative.\<close>

definition digit_char :: "nat \<Rightarrow> char" where
  "digit_char d = char_of (48 + d)"

fun str_nat :: "nat \<Rightarrow> string" where
  "str_nat n = (if n < 10 then [digit_char n] else str_nat (n div 10) @ [digit_char (n mod 10)])"

definition str :: "int \<Rightarrow> string" where
  "str i = (if i < 0 then ''-'' @ str_nat (nat (- i)) else str_nat (nat i))"

section \<open>Decoding one record of a chunk\<close>

definition read_item ::
  "('f, 'r) env \<Rightarrow> string \<Rightarrow> tables \<Rightarrow> int \<Rightarrow> bytes \<Rightarrow> savegame \<Rightarrow> error + savegame"
where
  "read_item env tag tables index data self =
     (let table_index = (if index = - 1 then ''0'' else str index) in
      if tables \<noteq> [] then
        (case u_read_item env data tables ''root'' of
           Inl e \<Rightarrow> Inl e
         | Inr (item, data1) \<Rightarrow>
             let self1 = self\<lparr>self_items := items_set (self_items self) tag table_index (VDict item)\<rparr>
             in if tag \<noteq> ''GSDT'' \<and> tag \<noteq> ''AIPL'' then
                  if length data1 \<noteq> 0 then
                    Inl (ValidationException (''Junk at end of chunk '' @ tag))
                  else Inr self1
                else Inr self1)
      else Inr (self\<lparr>self_tables := (self_tables self)(tag \<mapsto> Placeholder ''unsupported'')\<rparr>))"

section \<open>Extension chunk decoder\<close>

text \<open>The inner loop: \<open>extra_chunk_count\<close> four-byte tags, sliced off the front.\<close>

fun read_slxi_chunks ::
  "('f, 'r) env \<Rightarrow> nat \<Rightarrow> pyval list \<Rightarrow> bytes \<Rightarrow> error + (pyval list \<times> bytes)"
where
  "read_slxi_chunks env 0 chunks data = Inr (chunks, data)"
| "read_slxi_chunks env (Suc n) chunks data =
     (case decode env (take 4 data) of
        Inl e \<Rightarrow> Inl e
      | Inr s \<Rightarrow> read_slxi_chunks env n (chunks @ [VStr s]) (drop 4 data))"

text \<open>
  The body of the loop over the items, up to the store: it decodes one item from the
  front of \<open>data\<close> and returns it with the rest.
\<close>

definition read_slxi_item :: "('f, 'r) env \<Rightarrow> bytes \<Rightarrow> error + (pyval \<times> bytes)" where
  "read_slxi_item env data =
     (case read_uint32 env data of
        Inl e \<Rightarrow> Inl e
      | Inr (flags, data1) \<Rightarrow>
     (case read_uint16 env data1 of
        Inl e \<Rightarrow> Inl e
      | Inr (version, data2) \<Rightarrow>
     (case read_string env data2 of
        Inl e \<Rightarrow> Inl e
      | Inr (name, data3) \<Rightarrow>
          let flag_names =
                (if flags AND 1 \<noteq> 0 then [VStr ''ignorable unknown''] else []) @
                (if flags AND 2 \<noteq> 0 then [VStr ''ignorable version''] else []) @
                (if flags AND 4 \<noteq> 0 then [VStr ''extra data present''] else []) @
                (if flags AND 8 \<noteq> 0 then [VStr ''chunk ID list present''] else []);
              item = [(''name'', VStr name), (''version'', VInt (int version)),
                      (''flags'', VList flag_names)]
          in
     (case (if flags AND 4 \<noteq> 0 then
              (case read_uint32 env data3 of
                 Inl e \<Rightarrow> Inl e
               | Inr (extra_data_size, data4) \<Rightarrow>
                   if name = ''version_label'' then
                     (case decode env (take extra_data_size data4) of
                        Inl e \<Rightarrow> Inl e
                      | Inr s \<Rightarrow>
                          Inr (dict_set item ''extra_data'' (VStr s), drop extra_data_size data4))
                   else
                     Inr (dict_set item ''extra_data''
                            (VList (map (\<lambda>b. VInt (uint b)) (take extra_data_size data4))),
                          drop extra_data_size data4))
            else Inr (item, data3)) of
        Inl e \<Rightarrow> Inl e
      | Inr (item1, data5) \<Rightarrow>
          if flags AND 8 \<noteq> 0 then
            (case read_uint32 env data5 of
               Inl e \<Rightarrow> Inl e
             | Inr (extra_chunk_count, data6) \<Rightarrow>
                 (case read_slxi_chunks env extra_chunk_count [] data6 of
                    Inl e \<Rightarrow> Inl e
                  | Inr (chunks, data7) \<Rightarrow>
                      Inr (VDict (dict_set item1 ''chunks'' (VList chunks)), data7)))
          else Inr (VDict item1, data5)))))"

text \<open>\<open>for idx in range(item_count)\<close>: \<open>idx\<close> counts up, \<open>n\<close> items are still to come.\<close>

fun read_slxi_loop ::
  "('f, 'r) env \<Rightarrow> string \<Rightarrow> nat \<Rightarrow> nat \<Rightarrow> bytes \<Rightarrow> savegame \<Rightarrow> error + savegame"
where
  "read_slxi_loop env tag idx 0 data self = Inr self"
| "read_slxi_loop env tag idx (Suc n) data self =
     (case read_slxi_item env data of
        Inl e \<Rightarrow> Inl e
      | Inr (item, data1) \<Rightarrow>
          read_slxi_loop env tag (idx + 1) n data1
            (self\<lparr>self_items := items_set (self_items self) tag (str (int idx)) item\<rparr>))"

definition read_slxi ::
  "('f, 'r) env \<Rightarrow> string \<Rightarrow> bytes \<Rightarrow> savegame \<Rightarrow> error + savegame"
where
  "read_slxi env tag data self =
     (let self1 = self\<lparr>self_tables := (self_tables self)(tag \<mapsto> Placeholder ''unsupported'')\<rparr> in
      case read_uint32 env data of
        Inl e \<Rightarrow> Inl e
      | Inr (chunk_version, data1) \<Rightarrow>
          if chunk_version > 0 then Inr self1
          else
     (case read_uint32 env data1 of
        Inl e \<Rightarrow> Inl e
      | Inr (chunk_flags, data2) \<Rightarrow>
          if chunk_flags \<noteq> 0 then Inr self1
          else
            let self2 = self1\<lparr>self_tables := (self_tables self1)(tag \<mapsto> Placeholder ''slxi'')\<rparr> in
     (case read_uint32 env data2 of
        Inl e \<Rightarrow> Inl e
      | Inr (item_count, data3) \<Rightarrow> read_slxi_loop env tag 0 item_count data3 self2)))"

section \<open>Chunk dispatcher\<close>

text \<open>
  The schema phase of a collection chunk: for type 3 or 4 the gamma-encoded size, the
  tables, the comparison and the registration under the tag; for type 1 or 2 the empty
  dictionary. It returns the tables the records are decoded with.
\<close>

definition read_table_header ::
  "('f, 'r) env \<Rightarrow> nat \<Rightarrow> string \<Rightarrow> 'r \<Rightarrow> savegame
     \<Rightarrow> (error + (tables \<times> 'r \<times> savegame)) option"
where
  "read_table_header env type tag reader self =
     (if type \<ge> 3 then
        (case rd_gamma env reader of
           Inl e \<Rightarrow> Some (Inl e)
         | Inr ((g, _), reader1) \<Rightarrow>
             let sz = int g - 1 in
             Option.bind (read_all_tables env tag reader1) (\<lambda>res.
               case res of
                 Inl e \<Rightarrow> Some (Inl e)
               | Inr ((tables, size_read), reader2) \<Rightarrow>
                   if int size_read \<noteq> sz then
                     Some (Inl (ValidationException ''Table header size mismatch.''))
                   else
                     Some (Inr (tables, reader2,
                       self\<lparr>self_tables := (self_tables self)(tag \<mapsto> Schemas tables)\<rparr>))))
      else Some (Inr ([], reader, self)))"

text \<open>
  The record loop of a collection chunk. \<open>index\<close> is the index of the previous record
  (\<open>-1\<close> before the first). The size can become negative when the explicit index is
  longer than the record, and is handed to \<open>reader.read\<close> as it is.
\<close>

partial_function (option) read_records ::
  "('f, 'r) env \<Rightarrow> nat \<Rightarrow> string \<Rightarrow> tables \<Rightarrow> int \<Rightarrow> 'r \<Rightarrow> savegame
     \<Rightarrow> (error + ('r \<times> savegame)) option"
where
  "read_records env type tag tables index reader self =
     (case rd_gamma env reader of
        Inl e \<Rightarrow> Some (Inl e)
      | Inr ((g, _), reader1) \<Rightarrow>
          let sz = int g - 1 in
          if sz < 0 then Some (Inr (reader1, self))
          else
     (case (if type = 2 \<or> type = 4 then
              (case rd_gamma env reader1 of
                 Inl e \<Rightarrow> Inl e
               | Inr ((idx, index_size), reader2) \<Rightarrow>
                   Inr (int idx, sz - int index_size, reader2))
            else Inr (index + 1, sz, reader1)) of
        Inl e \<Rightarrow> Some (Inl e)
      | Inr (index1, sz1, reader2) \<Rightarrow>
          if sz1 \<noteq> 0 then
            (case rd_read env sz1 reader2 of
               Inl e \<Rightarrow> Some (Inl e)
             | Inr (data, reader3) \<Rightarrow>
                 (case read_item env tag tables index1 data self of
                    Inl e \<Rightarrow> Some (Inl e)
                  | Inr self1 \<Rightarrow> read_records env type tag tables index1 reader3 self1))
          else read_records env type tag tables index1 reader2 self))"

declare read_records.simps [code]

text \<open>One chunk, from its header byte on; \<open>tag\<close> is the decoded four-character tag.\<close>

definition read_chunk ::
  "('f, 'r) env \<Rightarrow> string \<Rightarrow> 'r \<Rightarrow> savegame \<Rightarrow> (error + ('r \<times> savegame)) option"
where
  "read_chunk env tag reader self =
     (case rd_uint8 env reader of
        Inl e \<Rightarrow> Some (Inl e)
      | Inr (m, reader1) \<Rightarrow>
          let type = m AND 0xF in
          if type = 0 then
            (case rd_uint24 env reader1 of
               Inl e \<Rightarrow> Some (Inl e)
             | Inr (u24, reader2) \<Rightarrow>
                 let sz = push_bit 24 (drop_bit 4 m) OR u24 in
                 (case rd_read env (int sz) reader2 of
                    Inl e \<Rightarrow> Some (Inl e)
                  | Inr (data, reader3) \<Rightarrow>
                      (case (if tag = ''SLXI'' then read_slxi env tag data self
                             else read_item env tag [] (- 1) data self) of
                         Inl e \<Rightarrow> Some (Inl e)
                       | Inr self1 \<Rightarrow> Some (Inr (reader3, self1)))))
          else if 1 \<le> type \<and> type \<le> 4 then
            Option.bind (read_table_header env type tag reader1 self) (\<lambda>res.
              case res of
                Inl e \<Rightarrow> Some (Inl e)
              | Inr (tables, reader2, self1) \<Rightarrow>
                  read_records env type tag tables (- 1) reader2 self1)
          else Some (Inl (ValidationException ''Unknown chunk type.'')))"

text \<open>The \<open>while True\<close> loop over the chunks; it returns the reader after the last tag.\<close>

partial_function (option) read_chunks ::
  "('f, 'r) env \<Rightarrow> 'r \<Rightarrow> savegame \<Rightarrow> (error + ('r \<times> savegame)) option"
where
  "read_chunks env reader self =
     (case rd_read env 4 reader of
        Inl e \<Rightarrow> Some (Inl e)
      | Inr (tag, reader1) \<Rightarrow>
          if length tag = 0 \<or> tag = [0, 0, 0, 0] then Some (Inr (reader1, self))
          else if length tag \<noteq> 4 then Some (Inl (ValidationException ''Invalid savegame.''))
          else
     (case decode env tag of
        Inl e \<Rightarrow> Some (Inl e)
      | Inr tag_str \<Rightarrow>
          Option.bind (read_chunk env tag_str reader1 self) (\<lambda>res.
            case res of
              Inl e \<Rightarrow> Some (Inl e)
            | Inr (reader2, self1) \<Rightarrow> read_chunks env reader2 self1)))"

declare read_chunks.simps [code]

text \<open>
  \<open>_check_tail\<close>: a \<open>ValidationException\<close> of \<open>uint8\<close> is what the end of the stream
  looks like and is swallowed; any other exception passes through.
\<close>

definition u_check_tail :: "('f, 'r) env \<Rightarrow> 'r \<Rightarrow> string \<Rightarrow> error + unit" where
  "u_check_tail env reader item =
     (case rd_uint8 env reader of
        Inl (ValidationException _) \<Rightarrow> Inr ()
      | Inl e \<Rightarrow> Inl e
      | Inr _ \<Rightarrow> Inl (ValidationException (''Junk at the end of '' @ item @ ''.'')))"

text \<open>
  \<open>read\<close>: the container header on the raw file, the decompressor, the chunks, the
  tail check.
\<close>

definition read :: "('f, 'r) env \<Rightarrow> 'f \<Rightarrow> savegame \<Rightarrow> (error + savegame) option" where
  "read env fp self =
     (case file_read env 4 fp of
        Inl e \<Rightarrow> Some (Inl e)
      | Inr (compression, fp1) \<Rightarrow>
     (case file_uint16 env fp1 of
        Inl e \<Rightarrow> Some (Inl e)
      | Inr (version, fp2) \<Rightarrow>
          let self1 = self\<lparr>savegame_version := Some version\<rparr> in
     (case file_uint16 env fp2 of
        Inl e \<Rightarrow> Some (Inl e)
      | Inr (_, fp3) \<Rightarrow>
     (case UNCOMPRESS env compression of
        None \<Rightarrow>
          Some (Inl (ValidationException
            (''Unknown savegame compression '' @ repr env compression @ ''.'')))
      | Some decompressor \<Rightarrow>
     (case decompressor fp3 of
        Inl e \<Rightarrow> Some (Inl e)
      | Inr reader \<Rightarrow>
          Option.bind (read_chunks env reader self1) (\<lambda>res.
            case res of
              Inl e \<Rightarrow> Some (Inl e)
            | Inr (reader1, self2) \<Rightarrow>
                (case u_check_tail env reader1 ''file'' of
                   Inl e \<Rightarrow> Some (Inl e)
                 | Inr _ \<Rightarrow> Some (Inr self2))))))))"

section \<open>A sample instance of the collaborators\<close>

text \<open>
  For evaluating the decoder on concrete bytes: readers over a list of bytes (the state
  is the rest of the stream), a one-byte gamma encoding (values below 128, encoded
  length 1), field kinds 1 to 9 scalar, 10 \<open>STRING\<close> and 11 \<open>STRUCT\<close>, the list bit
  \<open>0x10\<close>, handlers for the unsigned scalars of one, two and four bytes and for strings,
  ASCII decoding, and a codec registry that knows the magic \<open>OTTN\<close> (no compression).
  The theorems below hold for every instance, not only for this one.
\<close>

definition sample_read :: "int \<Rightarrow> bytes \<Rightarrow> error + (bytes \<times> bytes)" where
  "sample_read n bs =
     (if n < 0 then Inr (bs, []) else Inr (take (nat n) bs, drop (nat n) bs))"

definition sample_uint :: "nat \<Rightarrow> bytes \<Rightarrow> error + (nat \<times> bytes)" where
  "sample_uint k bs =
     (if length bs < k then Inl (ValidationException ''Unexpected end of file.'')
      else Inr (foldl (\<lambda>a b. a * 256 + unat b) 0 (take k bs), drop k bs))"

definition sample_gamma :: "bytes \<Rightarrow> error + ((nat \<times> nat) \<times> bytes)" where
  "sample_gamma bs =
     (case bs of
        [] \<Rightarrow> Inl (ValidationException ''Unexpected end of file.'')
      | b # rest \<Rightarrow>
          if b < 0x80 then Inr ((unat b, 1), rest)
          else Inl (ValidationException ''Invalid gamma encoding.''))"

definition sample_decode :: "bytes \<Rightarrow> error + string" where
  "sample_decode bs =
     (if list_all (\<lambda>b. b < 0x80) bs then Inr (map (\<lambda>b. char_of (unat b)) bs)
      else Inl UnicodeDecodeError)"

definition sample_read_gamma :: "bytes \<Rightarrow> error + (nat \<times> bytes)" where
  "sample_read_gamma data =
     (case sample_gamma data of
        Inl e \<Rightarrow> Inl StructError
      | Inr ((v, _), rest) \<Rightarrow> Inr (v, rest))"

definition sample_read_uint :: "nat \<Rightarrow> bytes \<Rightarrow> error + (nat \<times> bytes)" where
  "sample_read_uint k data =
     (if length data < k then Inl StructError
      else Inr (foldl (\<lambda>a b. a * 256 + unat b) 0 (take k data), drop k data))"

definition sample_read_string :: "bytes \<Rightarrow> error + (string \<times> bytes)" where
  "sample_read_string data =
     (case sample_read_gamma data of
        Inl e \<Rightarrow> Inl e
      | Inr (n, rest) \<Rightarrow>
          (case sample_decode (take n rest) of
             Inl e \<Rightarrow> Inl e
           | Inr s \<Rightarrow> Inr (s, drop n rest)))"

definition sample_FieldType :: "nat \<Rightarrow> FieldType option" where
  "sample_FieldType n =
     (if n = 10 then Some STRING
      else if n = 11 then Some STRUCT
      else if 1 \<le> n \<and> n \<le> 9 then Some (SCALAR n)
      else None)"

definition sample_scalar :: "nat \<Rightarrow> bytes \<Rightarrow> error + (pyval \<times> bytes)" where
  "sample_scalar k data =
     (case sample_read_uint k data of
        Inl e \<Rightarrow> Inl e
      | Inr (v, rest) \<Rightarrow> Inr (VInt (int v), rest))"

definition sample_READERS :: "FieldType \<Rightarrow> (bytes \<Rightarrow> error + (pyval \<times> bytes)) option" where
  "sample_READERS ft =
     (case ft of
        STRING \<Rightarrow>
          Some (\<lambda>data. case sample_read_string data of
                          Inl e \<Rightarrow> Inl e
                        | Inr (s, rest) \<Rightarrow> Inr (VStr s, rest))
      | STRUCT \<Rightarrow> None
      | SCALAR n \<Rightarrow>
          if n = 2 then Some (sample_scalar 1)
          else if n = 4 then Some (sample_scalar 2)
          else if n = 6 then Some (sample_scalar 4)
          else None)"

definition sample_UNCOMPRESS :: "bytes \<Rightarrow> (bytes \<Rightarrow> error + bytes) option" where
  "sample_UNCOMPRESS magic =
     (if magic = [0x4F, 0x54, 0x54, 0x4E] then Some (\<lambda>fp. Inr fp) else None)"

definition sample_env :: "(bytes, bytes) env" where
  "sample_env =
     \<lparr>file_read = (\<lambda>n fp. Inr (take n fp, drop n fp)),
      file_uint16 = sample_uint 2,
      UNCOMPRESS = sample_UNCOMPRESS,
      rd_read = sample_read,
      rd_uint8 = sample_uint 1,
      rd_uint24 = sample_uint 3,
      rd_gamma = sample_gamma,
      FieldType_of = sample_FieldType,
      FIELD_TYPE_HAS_LENGTH_FIELD = 0x10,
      read_gamma = sample_read_gamma,
      read_uint16 = sample_read_uint 2,
      read_uint32 = sample_read_uint 4,
      read_string = sample_read_string,
      READERS = sample_READERS,
      decode = sample_decode,
      repr = (\<lambda>bs. map (\<lambda>b. char_of (unat b)) bs)\<rparr>"

section \<open>What a valid embedded schema is\<close>

text \<open>
  The specification's side of the schema accounting. A parsed field is kept with the two
  numbers the gamma read returned for its name: \<open>(field, key_length, index_size)\<close>.
  \<open>table_bytes env r es r'\<close> says that the stream at \<open>r\<close> holds one table, the fields
  \<open>es\<close> in order and then the terminating zero byte, and that \<open>r'\<close> is the stream after
  it: every field is one nonzero type byte, a gamma-encoded name length, the name's bytes,
  a low nibble that is a field kind, and a name that decodes.
\<close>

type_synonym entry = "field \<times> nat \<times> nat"

inductive table_bytes :: "('f, 'r) env \<Rightarrow> 'r \<Rightarrow> entry list \<Rightarrow> 'r \<Rightarrow> bool" where
  terminator:
    "rd_read env 1 r = Inr ([0], r') \<Longrightarrow> table_bytes env r [] r'"
| field:
    "rd_read env 1 r = Inr ([b], r1) \<Longrightarrow> b \<noteq> 0 \<Longrightarrow>
     rd_gamma env r1 = Inr ((key_length, index_size), r2) \<Longrightarrow>
     rd_read env (int key_length) r2 = Inr (key, r3) \<Longrightarrow>
     FieldType_of env (nat (sint b AND 0xf)) = Some field_type \<Longrightarrow>
     decode env key = Inr name \<Longrightarrow>
     table_bytes env r3 es r' \<Longrightarrow>
     table_bytes env r
       (((field_type, sint b AND FIELD_TYPE_HAS_LENGTH_FIELD env \<noteq> 0, name),
         key_length, index_size) # es) r'"

text \<open>
  The byte count the specification asks for: per field 1 (the type byte) plus
  \<open>key_length\<close> plus \<open>index_size\<close>, and 1 for the terminating zero byte.
\<close>

definition table_size :: "entry list \<Rightarrow> nat" where
  "table_size es = (\<Sum>(f, key_length, index_size) \<leftarrow> es. 1 + key_length + index_size) + 1"

text \<open>
  A schema with its nested schemas: the root table, and one subtree for each of its
  \<open>STRUCT\<close> fields, in the order the fields are declared. \<open>schema_bytes env r t r'\<close> says
  that the stream at \<open>r\<close> holds the tree \<open>t\<close> depth first: a table, and then for each
  \<open>STRUCT\<close> field in turn the whole tree of that field.
\<close>

datatype schema_tree = Schema (entries: "entry list") (nested: "schema_tree list")

inductive schema_bytes :: "('f, 'r) env \<Rightarrow> 'r \<Rightarrow> schema_tree \<Rightarrow> 'r \<Rightarrow> bool"
  and nested_bytes :: "('f, 'r) env \<Rightarrow> 'r \<Rightarrow> field list \<Rightarrow> schema_tree list \<Rightarrow> 'r \<Rightarrow> bool"
where
  schema:
    "table_bytes env r es r1 \<Longrightarrow> nested_bytes env r1 (map fst es) ts r' \<Longrightarrow>
     schema_bytes env r (Schema es ts) r'"
| no_more: "nested_bytes env r [] [] r"
| plain:
    "fst f \<noteq> STRUCT \<Longrightarrow> nested_bytes env r fs ts r' \<Longrightarrow> nested_bytes env r (f # fs) ts r'"
| struct:
    "fst f = STRUCT \<Longrightarrow> schema_bytes env r t r1 \<Longrightarrow> nested_bytes env r1 fs ts r' \<Longrightarrow>
     nested_bytes env r (f # fs) (t # ts) r'"

text \<open>The total over the tree: the root table and all nested tables.\<close>

fun tree_size :: "schema_tree \<Rightarrow> nat" where
  "tree_size (Schema es ts) = table_size es + sum_list (map tree_size ts)"

text \<open>
  The registry the specification asks for: the table of each \<open>STRUCT\<close> field \<open>F\<close> of the
  table at key \<open>K\<close> is registered under \<open>K.F\<close>, followed by the tables nested in it, before
  the next field of \<open>K\<close> is looked at.
\<close>

fun register_nested :: "string \<Rightarrow> field list \<Rightarrow> schema_tree list \<Rightarrow> tables \<Rightarrow> tables" where
  "register_nested key [] ts tables = tables"
| "register_nested key (f # fs) ts tables =
     (if fst f = STRUCT then
        (case ts of
           [] \<Rightarrow> tables
         | Schema es sub # ts' \<Rightarrow>
             register_nested key fs ts'
               (register_nested (key @ ''.'' @ snd (snd f)) (map fst es) sub
                  (dict_set tables (key @ ''.'' @ snd (snd f)) (map fst es))))
      else register_nested key fs ts tables)"

definition register_tree :: "schema_tree \<Rightarrow> tables" where
  "register_tree t =
     (case t of Schema es ts \<Rightarrow>
        register_nested ''root'' (map fst es) ts (dict_set [] ''root'' (map fst es)))"

section \<open>What decoding a record left to right is\<close>

text \<open>
  The specification's side of the record decoder: the values of the fields \<open>flds\<close>, each
  decoded by \<open>read_field\<close> from the front of the bytes the fields before it left, with
  the bytes that remain after the last one. The first field that fails decides the error.
\<close>

fun decode_fields ::
  "('f, 'r) env \<Rightarrow> tables \<Rightarrow> string \<Rightarrow> field list \<Rightarrow> bytes \<Rightarrow> error + (pyval list \<times> bytes)"
where
  "decode_fields env tables key [] data = Inr ([], data)"
| "decode_fields env tables key (f # fs) data =
     (case read_field env data tables (fst f) (fst (snd f)) (snd (snd f)) key of
        Inl e \<Rightarrow> Inl e
      | Inr (v, data1) \<Rightarrow>
          (case decode_fields env tables key fs data1 of
             Inl e \<Rightarrow> Inl e
           | Inr (vs, rest) \<Rightarrow> Inr (v # vs, rest)))"

text \<open>The dictionary that successive assignments \<open>d[k] = v\<close> build from the empty one.\<close>

definition dict_of :: "('k \<times> 'v) list \<Rightarrow> ('k, 'v) dict" where
  "dict_of kvs = foldl (\<lambda>d (k, v). dict_set d k v) [] kvs"

text \<open>A list without its repetitions, each element where it first occurs.\<close>

definition first_occurrences :: "'a list \<Rightarrow> 'a list" where
  "first_occurrences xs = rev (remdups (rev xs))"


section \<open>Lemmas about the schema parser\<close>

lemma sint_byte_eq_0: "sint (b :: byte) = 0 \<longleftrightarrow> b = 0"
  by (simp add: signed_eq_0_iff)

lemma table_size_Nil: "table_size [] = 1"
  by (simp add: table_size_def)

lemma table_size_Cons:
  "table_size ((f, key_length, index_size) # es) = 1 + key_length + index_size + table_size es"
  by (simp add: table_size_def)

lemma dict_get_dict_set: "dict_get (dict_set d k v) k = Some v"
  by (induction d) (auto simp: dict_get_def)

text \<open>The loop of \<open>_read_table\<close> on a valid table, from any accumulators.\<close>

lemma u_read_table_loop_table_bytes:
  "table_bytes env r es r' \<Longrightarrow>
   u_read_table_loop env flds sz r = Some (Inr ((flds @ map fst es, sz + table_size es), r'))"
proof (induction arbitrary: flds sz rule: table_bytes.induct)
  case (terminator env r r')
  then show ?case
    by (subst u_read_table_loop.simps) (simp add: unpack_b_def table_size_Nil)
next
  case (field env r b r1 key_length index_size r2 key r3 field_type name es r')
  from field.hyps(2) have nz: "sint b \<noteq> 0" by (simp add: sint_byte_eq_0)
  show ?case
    apply (subst u_read_table_loop.simps)
    using field.hyps nz
    apply (simp add: unpack_b_def field.IH table_size_Cons)
    done
qed

lemma unpack_b_Inr: "unpack_b bs = Inr t \<Longrightarrow> \<exists>b. bs = [b] \<and> t = sint b"
  by (auto simp: unpack_b_def split: list.splits)

text \<open>Every table the loop returns was a valid table.\<close>

lemma u_read_table_loop_returns:
  "u_read_table_loop env flds sz r = Some y \<Longrightarrow> y = Inr ((flds', sz'), r') \<Longrightarrow>
   \<exists>es. table_bytes env r es r' \<and> flds' = flds @ map fst es \<and> sz' = sz + table_size es"
proof (induction arbitrary: flds' sz' r'
    rule: u_read_table_loop.raw_induct [rotated 1, consumes 1, case_names 1])
  case (1 loop env flds sz reader y)
  from "1.prems" "1.hyps"
  obtain bs reader1 where rd: "rd_read env 1 reader = Inr (bs, reader1)"
    by (auto split: sum.splits)
  from "1.prems" "1.hyps" rd obtain b where bs: "bs = [b]"
    by (auto split: sum.splits dest: unpack_b_Inr)
  show ?case
  proof (cases "b = 0")
    case True
    with "1.prems" "1.hyps" rd bs have "flds' = flds" "sz' = sz + 1" "r' = reader1"
      by (auto simp: unpack_b_def)
    moreover from rd bs True have "table_bytes env reader [] r'"
      using calculation by (auto intro: table_bytes.terminator)
    ultimately show ?thesis
      by (intro exI [of _ "[]"]) (simp add: table_size_Nil)
  next
    case False
    then have nz: "sint b \<noteq> 0" by (simp add: sint_byte_eq_0)
    from "1.prems" "1.hyps" rd bs nz
    obtain key_length index_size reader2 key reader3 field_type name where
      g: "rd_gamma env reader1 = Inr ((key_length, index_size), reader2)"
      and k: "rd_read env (int key_length) reader2 = Inr (key, reader3)"
      and ft: "FieldType_of env (nat (sint b AND 0xf)) = Some field_type"
      and d: "decode env key = Inr name"
      and rec: "loop env (flds @ [(field_type, sint b AND FIELD_TYPE_HAS_LENGTH_FIELD env \<noteq> 0, name)])
                  (sz + 1 + key_length + index_size) reader3 = Some y"
      by (auto simp: unpack_b_def split: sum.splits option.splits)
    from "1.IH" [OF rec "1.prems"] obtain es where
      es: "table_bytes env reader3 es r'"
        "flds' = (flds @ [(field_type, sint b AND FIELD_TYPE_HAS_LENGTH_FIELD env \<noteq> 0, name)]) @ map fst es"
        "sz' = (sz + 1 + key_length + index_size) + table_size es"
      by blast
    let ?e = "((field_type, sint b AND FIELD_TYPE_HAS_LENGTH_FIELD env \<noteq> 0, name), key_length, index_size)"
    from rd bs False g k ft d es(1) have "table_bytes env reader (?e # es) r'"
      by (auto intro: table_bytes.field)
    with es(2,3) show ?thesis
      by (intro exI [of _ "?e # es"]) (simp add: table_size_Cons)
  qed
qed

lemma u_read_table_table_bytes:
  "table_bytes env r es r' \<Longrightarrow>
   u_read_table env r = Some (Inr ((map fst es, table_size es), r'))"
  using u_read_table_loop_table_bytes [of env r es r' "[]" 0]
  by (simp add: u_read_table_def)

lemma u_read_table_returns:
  "u_read_table env r = Some (Inr ((flds, sz), r')) \<Longrightarrow>
   \<exists>es. table_bytes env r es r' \<and> flds = map fst es \<and> sz = table_size es"
  using u_read_table_loop_returns [of env "[]" 0 r _ flds sz r']
  by (simp add: u_read_table_def)

text \<open>The loop of \<open>_read_substruct\<close> on valid nested schemas.\<close>

lemma schema_bytes_read:
  "schema_bytes env r t r' \<Longrightarrow>
     \<exists>r1. u_read_table env r = Some (Inr ((map fst (entries t), table_size (entries t)), r1))
        \<and> (\<forall>sz tables key.
             u_read_substruct_loop env (map fst (entries t)) sz r1 tables key
               = Some (Inr (sz + sum_list (map tree_size (nested t)), r',
                            register_nested key (map fst (entries t)) (nested t) tables)))"
  and nested_bytes_read:
  "nested_bytes env r fs ts r' \<Longrightarrow>
     \<forall>sz tables key.
       u_read_substruct_loop env fs sz r tables key
         = Some (Inr (sz + sum_list (map tree_size ts), r', register_nested key fs ts tables))"
proof (induction rule: schema_bytes_nested_bytes.inducts)
  case (schema env r es r1 ts r')
  then show ?case
    by (auto simp: u_read_table_table_bytes)
next
  case (no_more env r)
  show ?case
    by (subst u_read_substruct_loop.simps) simp
next
  case (plain f env r fs ts r')
  then show ?case
    by (subst u_read_substruct_loop.simps) simp
next
  case (struct f env r t r1 fs ts r')
  from struct.IH(1) obtain r0 where
    tbl: "u_read_table env r = Some (Inr ((map fst (entries t), table_size (entries t)), r0))"
    and sub: "\<And>sz tables key.
       u_read_substruct_loop env (map fst (entries t)) sz r0 tables key
         = Some (Inr (sz + sum_list (map tree_size (nested t)), r1,
                      register_nested key (map fst (entries t)) (nested t) tables))"
    by blast
  show ?case
  proof (intro allI)
    fix sz tables key
    have reg: "register_nested key (f # fs) (t # ts) tables
        = register_nested key fs ts
            (register_nested (key @ ''.'' @ snd (snd f)) (map fst (entries t)) (nested t)
               (dict_set tables (key @ ''.'' @ snd (snd f)) (map fst (entries t))))"
      using struct.hyps(1) by (cases t) simp
    have sz: "tree_size t = table_size (entries t) + sum_list (map tree_size (nested t))"
      by (cases t) simp
    show "u_read_substruct_loop env (f # fs) sz r tables key
        = Some (Inr (sz + sum_list (map tree_size (t # ts)), r',
                     register_nested key (f # fs) (t # ts) tables))"
      apply (subst u_read_substruct_loop.simps)
      using struct.hyps(1) struct.IH(2)
      apply (simp add: tbl dict_get_dict_set sub reg sz Let_def add.assoc
                  del: register_nested.simps)
      done
  qed
qed

text \<open>Whatever the loop of \<open>_read_substruct\<close> returns came from valid nested schemas.\<close>

lemma u_read_substruct_loop_returns:
  "u_read_substruct_loop env flds sz r tables key = Some y \<Longrightarrow> y = Inr (sz', r', tables') \<Longrightarrow>
   \<exists>ts. nested_bytes env r flds ts r' \<and> sz' = sz + sum_list (map tree_size ts)
        \<and> tables' = register_nested key flds ts tables"
proof (induction arbitrary: sz' r' tables'
    rule: u_read_substruct_loop.raw_induct [rotated 1, consumes 1, case_names 1])
  case (1 loop env flds sz reader tables key y)
  show ?case
  proof (cases flds)
    case Nil
    with "1.hyps" "1.prems" show ?thesis
      by (auto intro: schema_bytes_nested_bytes.intros)
  next
    case (Cons f fs)
    show ?thesis
    proof (cases "fst f = STRUCT")
      case False
      with "1.hyps" Cons have "loop env fs sz reader tables key = Some y" by simp
      from "1.IH" [OF this "1.prems"] obtain ts where
        "nested_bytes env reader fs ts r'" "sz' = sz + sum_list (map tree_size ts)"
        "tables' = register_nested key fs ts tables"
        by blast
      with False Cons show ?thesis
        by (auto intro: schema_bytes_nested_bytes.intros)
    next
      case True
      let ?k = "key @ CHR ''.'' # snd (snd f)"
      from "1.hyps" Cons True obtain res where
        res: "u_read_table env reader = Some res"
        and k1: "(case res of
                    Inl e \<Rightarrow> Some (Inl e)
                  | Inr ((sub_fields, sub_size), reader1) \<Rightarrow>
                      (case dict_get (dict_set tables ?k sub_fields) ?k of
                         None \<Rightarrow> Some (Inl (KeyError ?k))
                       | Some sub_flds \<Rightarrow>
                           Option.bind
                             (loop env sub_flds 0 reader1 (dict_set tables ?k sub_fields) ?k)
                             (\<lambda>res2.
                                case res2 of
                                  Inl e \<Rightarrow> Some (Inl e)
                                | Inr (sub_sub_size, reader2, tables2) \<Rightarrow>
                                    loop env fs (sz + sub_size + sub_sub_size) reader2 tables2 key)))
                 = Some y"
        by (auto simp: bind_eq_Some_conv Let_def)
      from k1 "1.prems" obtain sub_fields sub_size reader1 where
        r: "res = Inr ((sub_fields, sub_size), reader1)"
        by (cases res) auto
      from res r have
        tbl: "u_read_table env reader = Some (Inr ((sub_fields, sub_size), reader1))"
        by simp
      from u_read_table_returns [OF tbl] obtain es where
        es: "table_bytes env reader es reader1" "sub_fields = map fst es" "sub_size = table_size es"
        by blast
      from k1 r obtain res2 where
        inner0: "loop env sub_fields 0 reader1 (dict_set tables ?k sub_fields) ?k = Some res2"
        and k2: "(case res2 of
                    Inl e \<Rightarrow> Some (Inl e)
                  | Inr (sub_sub_size, reader2, tables2) \<Rightarrow>
                      loop env fs (sz + sub_size + sub_sub_size) reader2 tables2 key) = Some y"
        by (auto simp: bind_eq_Some_conv dict_get_dict_set)
      from k2 "1.prems" obtain sub_sub_size reader2 tables2 where
        r2: "res2 = Inr (sub_sub_size, reader2, tables2)"
        by (cases res2) auto
      from inner0 r2 have
        inner: "loop env sub_fields 0 reader1 (dict_set tables ?k sub_fields) ?k
                  = Some (Inr (sub_sub_size, reader2, tables2))"
        by simp
      from k2 r2 have
        outer: "loop env fs (sz + sub_size + sub_sub_size) reader2 tables2 key = Some y"
        by simp
      from "1.IH" [OF inner refl] obtain sub where
        sub: "nested_bytes env reader1 sub_fields sub reader2"
          "sub_sub_size = sum_list (map tree_size sub)"
          "tables2 = register_nested ?k sub_fields sub (dict_set tables ?k sub_fields)"
        by auto
      from "1.IH" [OF outer "1.prems"] obtain ts where
        ts: "nested_bytes env reader2 fs ts r'"
          "sz' = (sz + sub_size + sub_sub_size) + sum_list (map tree_size ts)"
          "tables' = register_nested key fs ts tables2"
        by blast
      from es(1) sub(1) have "schema_bytes env reader (Schema es sub) reader2"
        by (auto simp: es(2) intro: schema_bytes_nested_bytes.intros)
      with True ts(1) have "nested_bytes env reader (f # fs) (Schema es sub # ts) r'"
        by (auto intro: schema_bytes_nested_bytes.intros)
      moreover have "sz' = sz + sum_list (map tree_size (Schema es sub # ts))"
        using ts(2) sub(2) es(3) by simp
      moreover have "tables' = register_nested key (f # fs) (Schema es sub # ts) tables"
        using ts(3) sub(3) es(2) True by simp
      ultimately show ?thesis
        unfolding Cons by blast
    qed
  qed
qed

section \<open>Lemmas about the record decoder\<close>

lemma decode_fields_length:
  "decode_fields env tables key flds data = Inr (vs, rest) \<Longrightarrow> length vs = length flds"
  by (induction flds arbitrary: data vs) (auto split: sum.splits)

lemma u_read_item_loop_decode_fields:
  "u_read_item_loop env flds result data tables key =
     (case decode_fields env tables key flds data of
        Inl e \<Rightarrow> Inl e
      | Inr (vs, rest) \<Rightarrow>
          Inr (foldl (\<lambda>d (k, v). dict_set d k v) result (zip (map (snd \<circ> snd) flds) vs), rest))"
  by (induction flds arbitrary: result data) (auto split: sum.splits)

lemma read_field_loop_decode_fields:
  "read_field_loop env n res data tables field field_name key =
     (case decode_fields env tables key (replicate n (field, False, field_name)) data of
        Inl e \<Rightarrow> Inl e
      | Inr (vs, rest) \<Rightarrow> Inr (res @ vs, rest))"
  by (induction n arbitrary: res data) (auto split: sum.splits)

lemma keys_dict_set:
  "map fst (dict_set d k v) = (if k \<in> set (map fst d) then map fst d else map fst d @ [k])"
  by (induction d) force+

lemma first_occurrences_distinct: "distinct xs \<Longrightarrow> first_occurrences xs = xs"
  by (simp add: first_occurrences_def distinct_remdups_id)

lemma first_occurrences_snoc:
  "first_occurrences (xs @ [x]) =
     (if x \<in> set xs then first_occurrences xs else first_occurrences xs @ [x])"
  by (simp add: first_occurrences_def)

lemma first_occurrences_absorb:
  assumes "k \<in> set ks"
  shows "first_occurrences (ks @ k # xs) = first_occurrences (ks @ xs)"
proof -
  have "remdups (rev xs @ k # rev ks) = remdups (rev xs @ remdups (k # rev ks))"
    by (rule remdups_append2 [symmetric])
  also have "remdups (k # rev ks) = remdups (rev ks)"
    using assms by simp
  also have "remdups (rev xs @ remdups (rev ks)) = remdups (rev xs @ rev ks)"
    by (rule remdups_append2)
  finally show ?thesis
    by (simp add: first_occurrences_def)
qed

lemma keys_foldl_dict_set:
  "distinct (map fst d) \<Longrightarrow>
   map fst (foldl (\<lambda>d (k, v). dict_set d k v) d kvs) = first_occurrences (map fst d @ map fst kvs)"
proof (induction kvs arbitrary: d)
  case Nil
  then show ?case by (simp add: first_occurrences_distinct)
next
  case (Cons kv kvs)
  obtain k v where kv: "kv = (k, v)" by (cases kv)
  have d': "distinct (map fst (dict_set d k v))"
    using Cons.prems by (simp add: keys_dict_set)
  show ?case
    using Cons.IH [OF d'] by (simp add: kv keys_dict_set first_occurrences_absorb)
qed

lemma keys_dict_of: "map fst (dict_of kvs) = first_occurrences (map fst kvs)"
  using keys_foldl_dict_set [of "[]" kvs] by (simp add: dict_of_def)

lemma dict_set_fresh: "k \<notin> set (map fst d) \<Longrightarrow> dict_set d k v = d @ [(k, v)]"
  by (induction d) auto

lemma foldl_dict_set_distinct:
  "distinct (map fst d @ map fst kvs) \<Longrightarrow>
   foldl (\<lambda>d (k, v). dict_set d k v) d kvs = d @ kvs"
proof (induction kvs arbitrary: d)
  case Nil
  then show ?case by simp
next
  case (Cons kv kvs)
  obtain k v where kv: "kv = (k, v)" by (cases kv)
  from Cons.prems have fresh: "k \<notin> set (map fst d)" by (auto simp: kv)
  from Cons.prems have "distinct (map fst (d @ [(k, v)]) @ map fst kvs)" by (auto simp: kv)
  from Cons.IH [OF this] show ?case
    by (simp add: kv dict_set_fresh [OF fresh])
qed

lemma dict_of_distinct: "distinct (map fst kvs) \<Longrightarrow> dict_of kvs = kvs"
  using foldl_dict_set_distinct [of "[]" kvs] by (simp add: dict_of_def)

lemma length_first_occurrences_le: "length (first_occurrences xs) \<le> length xs"
  using length_remdups_leq [of "rev xs"] by (simp add: first_occurrences_def)

lemma length_first_occurrences_eq:
  "length (first_occurrences xs) = length xs \<longleftrightarrow> distinct xs"
  using length_remdups_eq [of "rev xs"] by (simp add: first_occurrences_def)

lemma map_of_dict_set: "map_of (dict_set d k v) = (map_of d)(k \<mapsto> v)"
  by (induction d) auto

lemma map_add_upd_left: "m(k \<mapsto> v) ++ m' = m ++ ([k \<mapsto> v] ++ m')"
  by (rule ext) (simp add: map_add_def split: option.splits)

lemma map_of_foldl_dict_set:
  "map_of (foldl (\<lambda>d (k, v). dict_set d k v) d kvs) = map_of d ++ map_of (rev kvs)"
proof (induction kvs arbitrary: d)
  case Nil
  then show ?case by simp
next
  case (Cons kv kvs)
  obtain k v where kv: "kv = (k, v)" by (cases kv)
  have "foldl (\<lambda>d (k, v). dict_set d k v) d (kv # kvs)
          = foldl (\<lambda>d (k, v). dict_set d k v) (dict_set d k v) kvs"
    by (simp add: kv)
  then have "map_of (foldl (\<lambda>d (k, v). dict_set d k v) d (kv # kvs))
          = map_of (dict_set d k v) ++ map_of (rev kvs)"
    by (simp only: Cons.IH)
  also have "\<dots> = (map_of d)(k \<mapsto> v) ++ map_of (rev kvs)"
    by (simp only: map_of_dict_set)
  also have "\<dots> = map_of d ++ ([k \<mapsto> v] ++ map_of (rev kvs))"
    by (rule map_add_upd_left)
  also have "[k \<mapsto> v] ++ map_of (rev kvs) = map_of (rev (kv # kvs))"
    by (simp add: kv)
  finally show ?case .
qed

lemma map_of_dict_of: "map_of (dict_of kvs) = map_of (rev kvs)"
  using map_of_foldl_dict_set [of "[]" kvs] by (simp add: dict_of_def)


section \<open>The claims\<close>

subsection \<open>C1: the size check of an embedded schema\<close>

text \<open>
  C1. For a collection chunk of type 3 or 4 the dispatcher reads a gamma-encoded outer
  size \<open>S\<close> and runs the schema parser. Given that both succeed, the schema phase raises
  the validation failure "Table header size mismatch." if and only if the parser's
  consumed-byte count differs from \<open>S - 1\<close>; when they agree, the parsed tables are
  registered in \<open>self.tables\<close> under the chunk tag and the records are decoded with them.
  The last conjunct places the schema phase in \<open>read_chunk\<close>: after a header byte whose
  low nibble is the type, the chunk fails with that error or goes on to the record loop.
\<close>

theorem table_header_size_check:
  assumes "type = 3 \<or> type = 4"
    and "rd_gamma env reader = Inr ((S, n), reader1)"
    and "read_all_tables env tag reader1 = Some (Inr ((tables, size_read), reader2))"
  shows "(read_table_header env type tag reader self
            = Some (Inl (ValidationException ''Table header size mismatch.''))
          \<longleftrightarrow> int size_read \<noteq> int S - 1)
       \<and> (int size_read = int S - 1 \<longrightarrow>
            read_table_header env type tag reader self
              = Some (Inr (tables, reader2,
                   self\<lparr>self_tables := (self_tables self)(tag \<mapsto> Schemas tables)\<rparr>)))
       \<and> (\<forall>reader0 m. rd_uint8 env reader0 = Inr (m, reader) \<and> m AND 0xF = type \<longrightarrow>
            read_chunk env tag reader0 self
              = (if int size_read \<noteq> int S - 1
                 then Some (Inl (ValidationException ''Table header size mismatch.''))
                 else read_records env type tag tables (- 1) reader2
                        (self\<lparr>self_tables := (self_tables self)(tag \<mapsto> Schemas tables)\<rparr>)))"
proof -
  from assms(1) have t: "type \<ge> 3" "type \<noteq> 0" "1 \<le> type \<and> type \<le> 4" by auto
  have hdr: "read_table_header env type tag reader self
      = (if int size_read \<noteq> int S - 1
         then Some (Inl (ValidationException ''Table header size mismatch.''))
         else Some (Inr (tables, reader2,
                self\<lparr>self_tables := (self_tables self)(tag \<mapsto> Schemas tables)\<rparr>)))"
    using t(1) assms(2,3) by (simp add: read_table_header_def)
  show ?thesis
    using t(2,3) by (auto simp: hdr read_chunk_def)
qed

text \<open>
  A type 3 chunk \<open>ABCD\<close> whose header declares 5 (so \<open>S - 1 = 4\<close>) and whose schema, one
  one-byte field \<open>a\<close>, takes 4 bytes: the tables are registered. With a declared 6 the
  same schema is refused.
\<close>

theorem table_header_size_check_witness:
  "read_table_header sample_env 3 ''ABCD'' [5, 2, 1, 0x61, 0, 9] init_savegame
     = Some (Inr ([(''root'', [(SCALAR 2, False, ''a'')])], [9],
          init_savegame\<lparr>self_tables := (self_tables init_savegame)
            (''ABCD'' \<mapsto> Schemas [(''root'', [(SCALAR 2, False, ''a'')])])\<rparr>))
   \<and> read_table_header sample_env 3 ''ABCD'' [6, 2, 1, 0x61, 0, 9] init_savegame
     = Some (Inl (ValidationException ''Table header size mismatch.''))"
proof -
  have t: "read_all_tables sample_env ''ABCD'' [2, 1, 0x61, 0, 9]
             = Some (Inr (([(''root'', [(SCALAR 2, False, ''a'')])], 4), [9]))"
    by code_simp
  have ty: "(3::nat) = 3 \<or> (3::nat) = 4" by simp
  have g5: "rd_gamma sample_env [5, 2, 1, 0x61, 0, 9] = Inr ((5, 1), [2, 1, 0x61, 0, 9])"
    by (simp add: sample_env_def sample_gamma_def)
  have g6: "rd_gamma sample_env [6, 2, 1, 0x61, 0, 9] = Inr ((6, 1), [2, 1, 0x61, 0, 9])"
    by (simp add: sample_env_def sample_gamma_def)
  from table_header_size_check [OF ty g5 t, of init_savegame]
       table_header_size_check [OF ty g6 t, of init_savegame]
  show ?thesis by simp
qed

subsection \<open>C2: the byte count of the schema parser\<close>

text \<open>
  C2. \<open>_read_table\<close> returns fields, a count and a rest of the stream exactly when the
  stream holds a valid table with those fields up to that rest (\<open>table_bytes\<close>), and the
  count is then the sum over the parsed fields of 1 (the type byte) plus \<open>key_length\<close>
  plus \<open>index_size\<close> (the encoded length of the gamma), plus 1 for the terminating zero
  byte. \<open>read_all_tables\<close> returns exactly when the stream holds a schema tree
  (\<open>schema_bytes\<close>: the root table, then for each \<open>STRUCT\<close> field in declaration order
  the whole tree of that field, depth first); the count is the total over the root table
  and all nested tables (\<open>tree_size\<close>), and the registry holds the root table under
  \<open>root\<close> and each nested table under the dotted key \<open>parent_key.field_name\<close>
  (\<open>register_tree\<close>).
\<close>

theorem schema_accounting:
  "(u_read_table env r = Some (Inr ((flds, sz), r'))
      \<longleftrightarrow> (\<exists>es. table_bytes env r es r' \<and> flds = map fst es
                \<and> sz = (\<Sum>(f, key_length, index_size) \<leftarrow> es. 1 + key_length + index_size) + 1))
   \<and> (read_all_tables env tag r = Some (Inr ((tables, consumed), r''))
      \<longleftrightarrow> (\<exists>t. schema_bytes env r t r'' \<and> tables = register_tree t \<and> consumed = tree_size t))"
proof (intro conjI iffI)
  assume "u_read_table env r = Some (Inr ((flds, sz), r'))"
  from u_read_table_returns [OF this]
  show "\<exists>es. table_bytes env r es r' \<and> flds = map fst es
          \<and> sz = (\<Sum>(f, key_length, index_size) \<leftarrow> es. 1 + key_length + index_size) + 1"
    by (simp add: table_size_def)
next
  assume "\<exists>es. table_bytes env r es r' \<and> flds = map fst es
          \<and> sz = (\<Sum>(f, key_length, index_size) \<leftarrow> es. 1 + key_length + index_size) + 1"
  then show "u_read_table env r = Some (Inr ((flds, sz), r'))"
    by (auto simp: u_read_table_table_bytes table_size_def)
next
  assume ok: "read_all_tables env tag r = Some (Inr ((tables, consumed), r''))"
  then obtain res where
    res: "u_read_table env r = Some res"
    and k1: "(case res of
                Inl e \<Rightarrow> Some (Inl e)
              | Inr ((root_fields, sz), reader1) \<Rightarrow>
                  Option.bind
                    (u_read_substruct env reader1 (dict_set [] ''root'' root_fields) ''root'')
                    (\<lambda>res2.
                       case res2 of
                         Inl e \<Rightarrow> Some (Inl e)
                       | Inr (sub_size, reader2, tables) \<Rightarrow>
                           Some (Inr ((tables, sz + sub_size), reader2))))
             = Some (Inr ((tables, consumed), r''))"
    by (auto simp: read_all_tables_def bind_eq_Some_conv)
  from k1 obtain root_fields sz reader1 where r: "res = Inr ((root_fields, sz), reader1)"
    by (cases res) auto
  from u_read_table_returns [OF res [unfolded r]] obtain es where
    es: "table_bytes env r es reader1" "root_fields = map fst es" "sz = table_size es"
    by blast
  from k1 r obtain res2 where
    sub: "u_read_substruct env reader1 (dict_set [] ''root'' root_fields) ''root'' = Some res2"
    and k2: "(case res2 of
                Inl e \<Rightarrow> Some (Inl e)
              | Inr (sub_size, reader2, tables) \<Rightarrow> Some (Inr ((tables, sz + sub_size), reader2)))
             = Some (Inr ((tables, consumed), r''))"
    by (auto simp: bind_eq_Some_conv)
  from k2 obtain sub_size where r2: "res2 = Inr (sub_size, r'', tables)" "consumed = sz + sub_size"
    by (cases res2) auto
  from sub have loop:
    "u_read_substruct_loop env root_fields 0 reader1 (dict_set [] ''root'' root_fields) ''root''
       = Some res2"
    by (simp add: u_read_substruct_def dict_get_def)
  from u_read_substruct_loop_returns [OF loop r2(1)] obtain ts where
    ts: "nested_bytes env reader1 root_fields ts r''" "sub_size = sum_list (map tree_size ts)"
      "tables = register_nested ''root'' root_fields ts (dict_set [] ''root'' root_fields)"
    by auto
  from es(1) ts(1) have "schema_bytes env r (Schema es ts) r''"
    by (auto simp: es(2) intro: schema_bytes_nested_bytes.intros)
  moreover have "tables = register_tree (Schema es ts)"
    using ts(3) es(2) by (simp add: register_tree_def)
  moreover have "consumed = tree_size (Schema es ts)"
    using r2(2) ts(2) es(3) by simp
  ultimately show "\<exists>t. schema_bytes env r t r'' \<and> tables = register_tree t \<and> consumed = tree_size t"
    by blast
next
  assume "\<exists>t. schema_bytes env r t r'' \<and> tables = register_tree t \<and> consumed = tree_size t"
  then obtain t where t: "schema_bytes env r t r''" "tables = register_tree t" "consumed = tree_size t"
    by blast
  from schema_bytes_read [OF t(1)] obtain r1 where
    tbl: "u_read_table env r = Some (Inr ((map fst (entries t), table_size (entries t)), r1))"
    and sub: "\<And>sz tables key.
       u_read_substruct_loop env (map fst (entries t)) sz r1 tables key
         = Some (Inr (sz + sum_list (map tree_size (nested t)), r'',
                      register_nested key (map fst (entries t)) (nested t) tables))"
    by blast
  have "tables = register_nested ''root'' (map fst (entries t)) (nested t)
                   (dict_set [] ''root'' (map fst (entries t)))"
    using t(2) by (cases t) (simp add: register_tree_def)
  moreover have "consumed = table_size (entries t) + sum_list (map tree_size (nested t))"
    using t(3) by (cases t) simp
  ultimately show "read_all_tables env tag r = Some (Inr ((tables, consumed), r''))"
    by (simp add: read_all_tables_def tbl u_read_substruct_def dict_get_def sub)
qed

text \<open>
  A root table with a \<open>STRUCT\<close> field \<open>s\<close> and a one-byte field \<open>a\<close> (7 bytes),
  followed by the table of \<open>s\<close> with one list field \<open>x\<close> (4 bytes): 11 bytes in all,
  and the byte \<open>0xFF\<close> after the schema is left in the stream.
\<close>

theorem schema_accounting_witness:
  "(\<exists>es. table_bytes sample_env [0x0B, 1, 0x73, 0x02, 1, 0x61, 0, 0x12, 1, 0x78, 0, 0xFF] es
            [0x12, 1, 0x78, 0, 0xFF]
        \<and> [(STRUCT, False, ''s''), (SCALAR 2, False, ''a'')] = map fst es
        \<and> (7::nat) = (\<Sum>(f, key_length, index_size) \<leftarrow> es. 1 + key_length + index_size) + 1)
   \<and> (\<exists>t. schema_bytes sample_env [0x0B, 1, 0x73, 0x02, 1, 0x61, 0, 0x12, 1, 0x78, 0, 0xFF] t [0xFF]
        \<and> [(''root'', [(STRUCT, False, ''s''), (SCALAR 2, False, ''a'')]),
            (''root.s'', [(SCALAR 2, True, ''x'')])] = register_tree t
        \<and> (11::nat) = tree_size t)"
proof -
  have a: "u_read_table sample_env [0x0B, 1, 0x73, 0x02, 1, 0x61, 0, 0x12, 1, 0x78, 0, 0xFF]
          = Some (Inr (([(STRUCT, False, ''s''), (SCALAR 2, False, ''a'')], 7),
                       [0x12, 1, 0x78, 0, 0xFF]))"
    by code_simp
  have b: "read_all_tables sample_env ''ABCD''
             [0x0B, 1, 0x73, 0x02, 1, 0x61, 0, 0x12, 1, 0x78, 0, 0xFF]
          = Some (Inr (([(''root'', [(STRUCT, False, ''s''), (SCALAR 2, False, ''a'')]),
                         (''root.s'', [(SCALAR 2, True, ''x'')])], 11), [0xFF]))"
    by code_simp
  from a b
    schema_accounting [of sample_env "[0x0B, 1, 0x73, 0x02, 1, 0x61, 0, 0x12, 1, 0x78, 0, 0xFF]"
      "[(STRUCT, False, ''s''), (SCALAR 2, False, ''a'')]" 7 "[0x12, 1, 0x78, 0, 0xFF]"
      "''ABCD''"
      "[(''root'', [(STRUCT, False, ''s''), (SCALAR 2, False, ''a'')]),
        (''root.s'', [(SCALAR 2, True, ''x'')])]" 11 "[0xFF]"]
  show ?thesis by blast
qed

subsection \<open>C3: the keys and the values of a decoded record\<close>

text \<open>
  C3 says that a record decoded under a schema of \<open>N\<close> fields has exactly \<open>N\<close> keys.
  The result is a dictionary, so two fields of the same name share one key: under the
  schema \<open>a, a\<close> of two one-byte fields the bytes \<open>1, 2\<close> decode to the single entry
  \<open>a = 2\<close>.
\<close>

theorem read_item_duplicate_names_counterexample:
  "dict_get [(''root'', [(SCALAR 2, False, ''a''), (SCALAR 2, False, ''a'')])] ''root''
     = Some [(SCALAR 2, False, ''a''), (SCALAR 2, False, ''a'')]
   \<and> u_read_item sample_env [1, 2]
       [(''root'', [(SCALAR 2, False, ''a''), (SCALAR 2, False, ''a'')])] ''root''
     = Inr ([(''a'', VInt 2)], [])
   \<and> length [(''a'', VInt 2)] < length [(SCALAR 2, False, ''a''), (SCALAR 2, False, ''a'')]"
  by code_simp

text \<open>
  C3, amended. For a schema key whose table has the fields \<open>flds\<close>, \<open>_read_item\<close>
  decodes the fields strictly left to right (\<open>decode_fields\<close>: each value from the front
  of the bytes the fields before it left, the first failure ending the decode) and
  returns the dictionary built by assigning each value to its field's name in that
  order, with the bytes left after the last field. Its keys are the field names in
  declaration order without repetitions, each at its first occurrence, so there are at
  most \<open>N\<close> of them, and exactly \<open>N\<close> if and only if the names are pairwise distinct;
  then the result is the list of (name, value) pairs in declaration order. A repeated
  name holds the value of its last field. A \<open>STRUCT\<close> field is decoded recursively by
  \<open>_read_item\<close> under the key \<open>schema_key.field_name\<close>.
\<close>

theorem read_item_left_to_right:
  assumes "dict_get tables key = Some flds"
  shows "u_read_item env data tables key =
           (case decode_fields env tables key flds data of
              Inl e \<Rightarrow> Inl e
            | Inr (vs, rest) \<Rightarrow> Inr (dict_of (zip (map (snd \<circ> snd) flds) vs), rest))
       \<and> (\<forall>result rest. u_read_item env data tables key = Inr (result, rest) \<longrightarrow>
            (\<exists>vs. decode_fields env tables key flds data = Inr (vs, rest)
               \<and> length vs = length flds
               \<and> result = dict_of (zip (map (snd \<circ> snd) flds) vs)
               \<and> map_of result = map_of (rev (zip (map (snd \<circ> snd) flds) vs))
               \<and> (distinct (map (snd \<circ> snd) flds) \<longrightarrow>
                    result = zip (map (snd \<circ> snd) flds) vs))
            \<and> map fst result = first_occurrences (map (snd \<circ> snd) flds)
            \<and> length result \<le> length flds
            \<and> (length result = length flds \<longleftrightarrow> distinct (map (snd \<circ> snd) flds)))
       \<and> (\<forall>d field_name. read_field env d tables STRUCT False field_name key =
            (case u_read_item env d tables (key @ ''.'' @ field_name) of
               Inl e \<Rightarrow> Inl e
             | Inr (res, d1) \<Rightarrow> Inr (VDict res, d1)))"
proof (intro conjI allI impI)
  show eq: "u_read_item env data tables key =
           (case decode_fields env tables key flds data of
              Inl e \<Rightarrow> Inl e
            | Inr (vs, rest) \<Rightarrow> Inr (dict_of (zip (map (snd \<circ> snd) flds) vs), rest))"
    using assms unfolding dict_of_def by (simp add: u_read_item_loop_decode_fields)
  fix result rest
  assume ok: "u_read_item env data tables key = Inr (result, rest)"
  let ?names = "map (snd \<circ> snd) flds"
  from ok eq obtain vs where
    vs: "decode_fields env tables key flds data = Inr (vs, rest)"
    and res: "result = dict_of (zip ?names vs)"
    by (auto split: sum.splits)
  from decode_fields_length [OF vs] have len: "length vs = length flds" .
  then have keys: "map fst (zip ?names vs) = ?names" by simp
  have d: "result = zip ?names vs" if "distinct ?names"
    using that by (simp add: res dict_of_distinct keys)
  from vs len res d
  show "\<exists>vs. decode_fields env tables key flds data = Inr (vs, rest)
               \<and> length vs = length flds
               \<and> result = dict_of (zip ?names vs)
               \<and> map_of result = map_of (rev (zip ?names vs))
               \<and> (distinct ?names \<longrightarrow> result = zip ?names vs)"
    by (auto simp: map_of_dict_of)
  show k: "map fst result = first_occurrences ?names"
    by (simp add: res keys_dict_of keys)
  have "length result = length (first_occurrences ?names)"
    using k by (metis length_map)
  then show "length result \<le> length flds"
    and "length result = length flds \<longleftrightarrow> distinct ?names"
    using length_first_occurrences_le [of ?names] length_first_occurrences_eq [of ?names]
    by simp_all
next
  fix d field_name
  show "read_field env d tables STRUCT False field_name key =
            (case u_read_item env d tables (key @ ''.'' @ field_name) of
               Inl e \<Rightarrow> Inl e
             | Inr (res, d1) \<Rightarrow> Inr (VDict res, d1))"
    by simp
qed

text \<open>Two one-byte fields \<open>a\<close> and \<open>b\<close> on the bytes \<open>1, 2, 3\<close>.\<close>

theorem read_item_left_to_right_witness:
  "u_read_item sample_env [1, 2, 3]
     [(''root'', [(SCALAR 2, False, ''a''), (SCALAR 2, False, ''b'')])] ''root''
     = Inr ([(''a'', VInt 1), (''b'', VInt 2)], [3])"
proof -
  have h: "dict_get [(''root'', [(SCALAR 2, False, ''a''), (SCALAR 2, False, ''b'')])] ''root''
             = Some [(SCALAR 2, False, ''a''), (SCALAR 2, False, ''b'')]"
    by (simp add: dict_get_def)
  have d: "decode_fields sample_env
             [(''root'', [(SCALAR 2, False, ''a''), (SCALAR 2, False, ''b'')])] ''root''
             [(SCALAR 2, False, ''a''), (SCALAR 2, False, ''b'')] [1, 2, 3]
           = Inr ([VInt 1, VInt 2], [3])"
    by code_simp
  note eq = read_item_left_to_right [OF h, of sample_env "[1, 2, 3]", THEN conjunct1]
  show ?thesis
    unfolding eq d by (simp add: dict_of_def)
qed

subsection \<open>C4: list fields\<close>

text \<open>
  C4. A field marked as a list whose kind is not \<open>STRING\<close> is decoded by reading a
  gamma-encoded count \<open>L\<close> and then \<open>L\<close> values of the field's kind back to back, each
  by \<open>read_field\<close> without the list mark (for a kind other than \<open>STRUCT\<close> that is the
  handler \<open>READERS[kind]\<close>); the result is the list of these values in order, and its
  length is the value of the gamma prefix. A \<open>STRING\<close> field marked as a list is
  decoded by the string handler alone, with no gamma count.
\<close>

theorem read_field_list:
  assumes "field \<noteq> STRING"
  shows "read_field env data tables field True field_name key =
           (case read_gamma env data of
              Inl e \<Rightarrow> Inl e
            | Inr (len, data1) \<Rightarrow>
                (case decode_fields env tables key (replicate len (field, False, field_name)) data1 of
                   Inl e \<Rightarrow> Inl e
                 | Inr (vs, rest) \<Rightarrow> Inr (VList vs, rest)))
       \<and> (\<forall>len data1 vs rest.
            read_gamma env data = Inr (len, data1) \<and>
            decode_fields env tables key (replicate len (field, False, field_name)) data1
              = Inr (vs, rest)
            \<longrightarrow> length vs = len)
       \<and> (\<forall>d. field \<noteq> STRUCT \<longrightarrow>
            read_field env d tables field False field_name key =
              (case READERS env field of
                 None \<Rightarrow> Inl (KeyError ''READERS'')
               | Some reader \<Rightarrow> reader d))
       \<and> read_field env data tables STRING True field_name key =
            (case READERS env STRING of
               None \<Rightarrow> Inl (KeyError ''READERS'')
             | Some reader \<Rightarrow> reader data)"
proof (intro conjI allI impI)
  show "read_field env data tables field True field_name key =
           (case read_gamma env data of
              Inl e \<Rightarrow> Inl e
            | Inr (len, data1) \<Rightarrow>
                (case decode_fields env tables key (replicate len (field, False, field_name)) data1 of
                   Inl e \<Rightarrow> Inl e
                 | Inr (vs, rest) \<Rightarrow> Inr (VList vs, rest)))"
    using assms by (auto simp: read_field_loop_decode_fields split: sum.splits)
next
  fix len data1 vs rest
  assume "read_gamma env data = Inr (len, data1) \<and>
          decode_fields env tables key (replicate len (field, False, field_name)) data1
            = Inr (vs, rest)"
  then show "length vs = len"
    using decode_fields_length by fastforce
next
  fix d
  assume "field \<noteq> STRUCT"
  then show "read_field env d tables field False field_name key =
              (case READERS env field of
                 None \<Rightarrow> Inl (KeyError ''READERS'')
               | Some reader \<Rightarrow> reader d)"
    by simp
next
  show "read_field env data tables STRING True field_name key =
            (case READERS env STRING of
               None \<Rightarrow> Inl (KeyError ''READERS'')
             | Some reader \<Rightarrow> reader data)"
    by simp
qed

text \<open>
  A list of three one-byte values, and a string field with the list mark: the byte 2 is
  the string's own length, not a count of strings.
\<close>

theorem read_field_list_witness:
  "read_field sample_env [3, 10, 20, 30, 99] [] (SCALAR 2) True ''xs'' ''root''
     = Inr (VList [VInt 10, VInt 20, VInt 30], [99])
   \<and> read_field sample_env [2, 0x68, 0x69, 7] [] STRING True ''s'' ''root''
     = Inr (VStr ''hi'', [7])"
proof -
  have ne: "SCALAR 2 \<noteq> STRING" by simp
  have g: "read_gamma sample_env [3, 10, 20, 30, 99] = Inr (3, [10, 20, 30, 99])"
    by code_simp
  have d: "decode_fields sample_env [] ''root'' (replicate 3 (SCALAR 2, False, ''xs''))
             [10, 20, 30, 99] = Inr ([VInt 10, VInt 20, VInt 30], [99])"
    by code_simp
  have s: "(case READERS sample_env STRING of
               None \<Rightarrow> Inl (KeyError ''READERS'')
             | Some reader \<Rightarrow> reader [2, 0x68, 0x69, 7]) = Inr (VStr ''hi'', [7])"
    by code_simp
  note lst = read_field_list [OF ne, of sample_env "[3, 10, 20, 30, 99]" "[]" "''xs''" "''root''",
      THEN conjunct1]
  have a: "read_field sample_env [3, 10, 20, 30, 99] [] (SCALAR 2) True ''xs'' ''root''
     = Inr (VList [VInt 10, VInt 20, VInt 30], [99])"
    unfolding lst g by (simp add: d)
  note strg = read_field_list [OF ne, of sample_env "[2, 0x68, 0x69, 7]" "[]" "''s''" "''root''",
      THEN conjunct2, THEN conjunct2, THEN conjunct2]
  have b: "read_field sample_env [2, 0x68, 0x69, 7] [] STRING True ''s'' ''root''
     = Inr (VStr ''hi'', [7])"
    unfolding strg by (rule s)
  from a b show ?thesis by simp
qed

end
